theory Spec2Isabelle
  imports Main "HOL-Library.Word" "HOL-Library.Monad_Syntax"
begin

unbundle bit_operations_syntax

section \<open>Byte-addressed memory\<close>

text \<open>
  The allocator of \<^verbatim>\<open>src/alloc.c\<close> keeps its block headers inside the heap it manages and
  reaches them by pointer arithmetic and casts, so the model is a flat memory of bytes indexed
  by 64-bit addresses. Pointers and \<^verbatim>\<open>size_t\<close> are 64-bit words (wrapping arithmetic), an
  \<^verbatim>\<open>int\<close> and an \<^verbatim>\<open>unsigned int\<close> are 32-bit words, and multi-byte values are stored least
  significant byte first (the LP64 little-endian targets on which \<^verbatim>\<open>sbrk\<close> exists).
\<close>

type_synonym addr = "64 word"
type_synonym memory = "addr \<Rightarrow> 8 word"

definition to_bytes :: "nat \<Rightarrow> 'a::len word \<Rightarrow> 8 word list" where
  "to_bytes n v = map (\<lambda>i. ucast (drop_bit (8 * i) v)) [0..<n]"

definition from_bytes :: "8 word list \<Rightarrow> 'a::len word" where
  "from_bytes bs = word_of_int (horner_sum uint (2 ^ LENGTH(8)) bs)"

definition store_bytes :: "memory \<Rightarrow> addr \<Rightarrow> 8 word list \<Rightarrow> memory" where
  "store_bytes m a bs = (\<lambda>x. if unat (x - a) < length bs then bs ! unat (x - a) else m x)"

definition load_bytes :: "memory \<Rightarrow> addr \<Rightarrow> nat \<Rightarrow> 8 word list" where
  "load_bytes m a n = map (\<lambda>i. m (a + of_nat i)) [0..<n]"

definition load64 :: "memory \<Rightarrow> addr \<Rightarrow> 64 word" where
  "load64 m a = from_bytes (load_bytes m a 8)"

definition store64 :: "memory \<Rightarrow> addr \<Rightarrow> 64 word \<Rightarrow> memory" where
  "store64 m a v = store_bytes m a (to_bytes 8 v)"

definition load32 :: "memory \<Rightarrow> addr \<Rightarrow> 32 word" where
  "load32 m a = from_bytes (load_bytes m a 4)"

definition store32 :: "memory \<Rightarrow> addr \<Rightarrow> 32 word \<Rightarrow> memory" where
  "store32 m a v = store_bytes m a (to_bytes 4 v)"

text \<open>
  The two library routines the allocator calls on payloads: \<^verbatim>\<open>memset(p, c, n)\<close> sets the
  \<open>n\<close> bytes from \<open>p\<close>, and \<^verbatim>\<open>memcpy(dst, src, n)\<close> copies \<open>n\<close> bytes of the memory as it
  was before the call. An address \<open>x\<close> lies in the \<open>n\<close> bytes from \<open>p\<close> exactly when the
  wrapping difference \<open>x - p\<close> is below \<open>n\<close>.
\<close>

definition memset :: "memory \<Rightarrow> addr \<Rightarrow> 8 word \<Rightarrow> 64 word \<Rightarrow> memory" where
  "memset m p c n = (\<lambda>x. if x - p < n then c else m x)"

definition memcpy :: "memory \<Rightarrow> addr \<Rightarrow> addr \<Rightarrow> 64 word \<Rightarrow> memory" where
  "memcpy m dst src n = (\<lambda>x. if x - dst < n then m (src + (x - dst)) else m x)"

section \<open>Allocator state\<close>

text \<open>
  What the two \<^verbatim>\<open>printf\<close> sites write to standard output.
\<close>

datatype message =
    Reallocating addr "64 word"
  | Corruption_detected
  | Corruption_at addr

text \<open>
  The process state the allocator reads and writes: the global \<^verbatim>\<open>HEAD\<close> of the free list, the
  memory, the program break that \<^verbatim>\<open>sbrk\<close> moves together with the highest break the operating
  system is willing to grant, and standard output.
\<close>

record state =
  HEAD :: addr
  mem :: memory
  brk :: addr
  brk_max :: addr
  stdout :: "message list"

text \<open>
  How a call ends: it returns a value, it calls \<^verbatim>\<open>abort()\<close>, or it stores through a null
  pointer. A call that never returns has no outcome: the functions that walk the free list
  have an \<open>option\<close> result and \<open>None\<close> stands for a walk that does not end (a cyclic list).
\<close>

datatype 'a outcome = Return 'a state | Abort state | Fault state

text \<open>
  Modelled from the spec: the header file \<^verbatim>\<open>alloc.h\<close> with the declaration of
  \<^verbatim>\<open>free_block\<close> is not among the sources. Following section 3 of the specification and the
  uses in \<^verbatim>\<open>alloc.c\<close>, a header is the \<^verbatim>\<open>size_t size\<close> at offset 0 followed by the pointer
  \<^verbatim>\<open>next\<close> at offset 8, sixteen bytes in all.
\<close>

definition sizeof_free_block :: "64 word" where
  "sizeof_free_block = 16"

definition block_size :: "state \<Rightarrow> addr \<Rightarrow> 64 word" where
  "block_size s b = load64 (mem s) b"

definition block_next :: "state \<Rightarrow> addr \<Rightarrow> addr" where
  "block_next s b = load64 (mem s) (b + 8)"

definition set_size :: "state \<Rightarrow> addr \<Rightarrow> 64 word \<Rightarrow> state" where
  "set_size s b v = s\<lparr>mem := store64 (mem s) b v\<rparr>"

definition set_next :: "state \<Rightarrow> addr \<Rightarrow> addr \<Rightarrow> state" where
  "set_next s b v = s\<lparr>mem := store64 (mem s) (b + 8) v\<rparr>"

definition ALIGNMENT :: "64 word" where
  "ALIGNMENT = 16"

definition MAGIC :: "32 word" where
  "MAGIC = 0x01234567"

section \<open>The splitter\<close>

text \<open>
  \<^verbatim>\<open>split(block, size)\<close>, lines 20 to 34. The parameter \<^verbatim>\<open>size\<close> is a C \<^verbatim>\<open>int\<close>; in the
  comparison, the pointer arithmetic and the subtraction it is converted to \<^verbatim>\<open>size_t\<close>, that
  is sign-extended (\<open>scast\<close>). The result is the pointer returned (0 is \<^verbatim>\<open>NULL\<close>) and the
  state. The new header's \<^verbatim>\<open>next\<close> is read after its \<^verbatim>\<open>size\<close> has been stored, as in the
  source.
\<close>

definition split :: "addr \<Rightarrow> 32 word \<Rightarrow> state \<Rightarrow> addr \<times> state" where
  "split block sz s =
     (if block_size s block < scast sz + sizeof_free_block then (0, s)
      else
        let new_block = block + scast sz + sizeof_free_block;
            s1 = set_size s new_block (block_size s block - scast sz - sizeof_free_block);
            s2 = set_next s1 new_block (block_next s1 block);
            s3 = set_size s2 block (scast sz)
        in (block, s3))"

section \<open>Neighbour finder, removal and the coalescer\<close>

text \<open>\<^verbatim>\<open>find_prev(block)\<close>, lines 42 to 51: the loop from \<open>cur\<close>, then the entry at \<^verbatim>\<open>HEAD\<close>.\<close>

partial_function (option) find_prev_loop :: "addr \<Rightarrow> state \<Rightarrow> addr \<Rightarrow> addr option" where
  "find_prev_loop block s cur =
     (if cur = 0 then Some 0
      else if cur + block_size s cur + sizeof_free_block = block then Some cur
      else find_prev_loop block s (block_next s cur))"

declare find_prev_loop.simps [code]

definition find_prev :: "addr \<Rightarrow> state \<Rightarrow> addr option" where
  "find_prev block s = find_prev_loop block s (HEAD s)"

text \<open>\<^verbatim>\<open>find_next(block)\<close>, lines 59 to 69.\<close>

partial_function (option) find_next_loop :: "addr \<Rightarrow> state \<Rightarrow> addr \<Rightarrow> addr option" where
  "find_next_loop block_end s cur =
     (if cur = 0 then Some 0
      else if cur = block_end then Some cur
      else find_next_loop block_end s (block_next s cur))"

declare find_next_loop.simps [code]

definition find_next :: "addr \<Rightarrow> state \<Rightarrow> addr option" where
  "find_next block s =
     find_next_loop (block + block_size s block + sizeof_free_block) s (HEAD s)"

text \<open>\<^verbatim>\<open>remove_free_block(block)\<close>, lines 76 to 89.\<close>

partial_function (option) remove_free_block_loop :: "addr \<Rightarrow> state \<Rightarrow> addr \<Rightarrow> state option" where
  "remove_free_block_loop block s cur =
     (if cur = 0 then Some s
      else if block_next s cur = block then Some (set_next s cur (block_next s block))
      else remove_free_block_loop block s (block_next s cur))"

declare remove_free_block_loop.simps [code]

definition remove_free_block :: "addr \<Rightarrow> state \<Rightarrow> state option" where
  "remove_free_block block s =
     (if HEAD s = block then Some (s\<lparr>HEAD := block_next s block\<rparr>)
      else remove_free_block_loop block s (HEAD s))"

text \<open>
  \<^verbatim>\<open>coalesce(block)\<close>, lines 97 to 131. \<open>coalesce_prev\<close> is the first conditional (lines 106
  to 117), which may replace \<open>block\<close> by \<open>prev\<close>; \<open>coalesce_next\<close> is the second (lines 120 to
  128). Each compound assignment reads its operands before it stores.
\<close>

definition coalesce_prev :: "addr \<Rightarrow> addr \<Rightarrow> state \<Rightarrow> addr \<times> state" where
  "coalesce_prev prev block s =
     (if prev \<noteq> 0 \<and> prev + block_size s prev + sizeof_free_block = block then
        let s1 = set_size s prev (block_size s prev + (block_size s block + sizeof_free_block));
            s2 = (if block_next s1 prev = block then set_next s1 prev (block_next s1 block)
                  else s1)
        in (prev, s2)
      else (block, s))"

definition coalesce_next :: "addr \<Rightarrow> addr \<Rightarrow> state \<Rightarrow> state" where
  "coalesce_next next block s =
     (if next \<noteq> 0 \<and> block + block_size s block + sizeof_free_block = next then
        let s1 = set_size s block (block_size s block + (block_size s next + sizeof_free_block))
        in set_next s1 block (block_next s1 next)
      else s)"

definition coalesce :: "addr \<Rightarrow> state \<Rightarrow> (addr \<times> state) option" where
  "coalesce block s =
     (if block = 0 then Some (0, s)
      else do {
        prev \<leftarrow> find_prev block s;
        next \<leftarrow> find_next block s;
        let (block1, s1) = coalesce_prev prev block s;
        Some (block1, coalesce_next next block1 s1)
      })"

section \<open>Heap growth\<close>

text \<open>
  The operating system's \<^verbatim>\<open>sbrk(increment)\<close>, whose argument is a signed \<^verbatim>\<open>intptr_t\<close>: it
  returns the previous break and moves the break by \<open>increment\<close>, or it returns
  \<^verbatim>\<open>(void *) -1\<close> and leaves the break where it was when the new break would be negative or
  above what the system grants.
\<close>

definition sbrk :: "64 word \<Rightarrow> state \<Rightarrow> addr \<times> state" where
  "sbrk increment s =
     (let new = uint (brk s) + sint increment
      in if new < 0 \<or> uint (brk_max s) < new then (- 1, s)
         else (brk s, s\<lparr>brk := word_of_int new\<rparr>))"

text \<open>
  \<^verbatim>\<open>do_alloc(size)\<close>, lines 139 to 149. The mask \<^verbatim>\<open>~(ALIGNMENT - 1)\<close> is the \<^verbatim>\<open>int\<close> -16
  converted to \<^verbatim>\<open>uintptr_t\<close>.
\<close>

definition do_alloc :: "64 word \<Rightarrow> state \<Rightarrow> addr \<times> state" where
  "do_alloc sz s =
     (let (ptr, s1) = sbrk (sz + sizeof_free_block) s;
          ptr1 = (if ptr mod ALIGNMENT \<noteq> 0 then (ptr + ALIGNMENT - 1) AND NOT (ALIGNMENT - 1)
                  else ptr)
      in if ptr1 = - 1 then (0, s1) else (ptr1, s1))"

section \<open>The four entry points\<close>

text \<open>
  \<^verbatim>\<open>tumalloc(size)\<close>, lines 157 to 192. \<open>stamp_header\<close> is lines 174 to 179 (the size, then
  the 4-byte magic number over the same address); \<open>tumalloc_grow\<close> is the code after the loop
  (lines 185 to 191), where a null \<^verbatim>\<open>ptr\<close> from \<open>do_alloc\<close> is stored through, which is
  the outcome \<open>Fault\<close>; and
  \<open>tumalloc_loop\<close> is the \<^verbatim>\<open>while\<close> loop from \<open>cur\<close> followed by that code. The argument
  of \<open>split\<close> is converted from \<^verbatim>\<open>size_t\<close> to \<^verbatim>\<open>int\<close> (\<open>ucast\<close> keeps the low 32 bits).
\<close>

definition stamp_header :: "addr \<Rightarrow> 64 word \<Rightarrow> state \<Rightarrow> state" where
  "stamp_header allocated_block sz s =
     (let s1 = set_size s allocated_block sz
      in s1\<lparr>mem := store32 (mem s1) allocated_block MAGIC\<rparr>)"

definition tumalloc_grow :: "64 word \<Rightarrow> state \<Rightarrow> addr outcome" where
  "tumalloc_grow sz s =
     (let (ptr, s1) = do_alloc (sz + sizeof_free_block) s
      in if ptr = 0 then Fault s1
         else Return (ptr + sizeof_free_block) (set_next (set_size s1 ptr sz) ptr 0))"

partial_function (option) tumalloc_loop :: "64 word \<Rightarrow> state \<Rightarrow> addr \<Rightarrow> addr outcome option" where
  "tumalloc_loop sz s cur =
     (if cur = 0 then Some (tumalloc_grow sz s)
      else if sz \<le> block_size s cur then
        (case split cur (ucast (sz + sizeof_free_block)) s of
           (split_ptr, s1) \<Rightarrow>
             if split_ptr = 0 then Some (Return 0 s1)
             else do {
               s2 \<leftarrow> remove_free_block cur s1;
               let s3 = stamp_header split_ptr sz s2;
               tumalloc_loop sz s3 (block_next s3 cur)
             })
      else tumalloc_loop sz s (block_next s cur))"

declare tumalloc_loop.simps [code]

definition tumalloc :: "64 word \<Rightarrow> state \<Rightarrow> addr outcome option" where
  "tumalloc sz s =
     (if HEAD s = 0 then
        (let (ptr, s1) = do_alloc (sz + sizeof_free_block) s in Some (Return ptr s1))
      else tumalloc_loop sz s (HEAD s))"

text \<open>\<^verbatim>\<open>tucalloc(num, size)\<close>, lines 201 to 210.\<close>

definition tucalloc :: "64 word \<Rightarrow> 64 word \<Rightarrow> state \<Rightarrow> addr outcome option" where
  "tucalloc num sz s =
     (let total_size = num * sz
      in do {
        r \<leftarrow> tumalloc total_size s;
        Some (case r of
                Return ptr s1 \<Rightarrow>
                  if ptr \<noteq> 0 then Return ptr (s1\<lparr>mem := memset (mem s1) ptr 0 total_size\<rparr>)
                  else Return ptr s1
              | Abort s1 \<Rightarrow> Abort s1
              | Fault s1 \<Rightarrow> Fault s1)
      })"

text \<open>\<^verbatim>\<open>tufree(ptr)\<close>, lines 248 to 266.\<close>

definition tufree :: "addr \<Rightarrow> state \<Rightarrow> unit outcome option" where
  "tufree ptr s =
     (if ptr = 0 then Some (Return () s)
      else
        let block_header = ptr - sizeof_free_block
        in if load32 (mem s) block_header = MAGIC then
             (let s1 = set_next s block_header (HEAD s);
                  s2 = s1\<lparr>HEAD := block_header\<rparr>
              in do {
                (_, s3) \<leftarrow> coalesce block_header s2;
                Some (Return () s3)
              })
           else
             Some (Abort (s\<lparr>stdout := stdout s @ [Corruption_detected, Corruption_at block_header]\<rparr>)))"

text \<open>
  \<^verbatim>\<open>turealloc(ptr, new_size)\<close>, lines 220 to 241. The old block's size is read again after
  the new allocation, for the message and for the length of the copy.
\<close>

definition turealloc :: "addr \<Rightarrow> 64 word \<Rightarrow> state \<Rightarrow> addr outcome option" where
  "turealloc ptr new_size s =
     (if ptr = 0 then tumalloc new_size s
      else
        let block = ptr - sizeof_free_block
        in if new_size = block_size s block then Some (Return ptr s)
           else if new_size < block_size s block then
             (case split block (ucast new_size) s of (_, s1) \<Rightarrow> Some (Return ptr s1))
           else do {
             r \<leftarrow> tumalloc new_size s;
             (case r of
                Return new_ptr s1 \<Rightarrow>
                  if new_ptr \<noteq> 0 then
                    (let s2 = s1\<lparr>stdout := stdout s1 @ [Reallocating ptr (block_size s1 block)]\<rparr>;
                         s3 = s2\<lparr>mem := memcpy (mem s2) new_ptr ptr (block_size s2 block)\<rparr>
                     in do {
                       f \<leftarrow> tufree ptr s3;
                       Some (case f of
                               Return _ s4 \<Rightarrow> Return new_ptr s4
                             | Abort s4 \<Rightarrow> Abort s4
                             | Fault s4 \<Rightarrow> Fault s4)
                     })
                  else Some (Return new_ptr s1)
              | Abort s1 \<Rightarrow> Some (Abort s1)
              | Fault s1 \<Rightarrow> Some (Fault s1))
           })"

section \<open>Observations, call sequences and example states\<close>

text \<open>
  What a caller or a debugger can observe of an outcome: the value returned, the state the call
  left behind, whether it was \<^verbatim>\<open>abort()\<close>; and of a state: the \<^verbatim>\<open>unsigned int\<close> that
  \<open>tufree\<close> reads at a header address (line 255) and the two fields of the header there.
\<close>

fun outcome_value :: "'a outcome \<Rightarrow> 'a option" where
  "outcome_value (Return v s) = Some v"
| "outcome_value (Abort s) = None"
| "outcome_value (Fault s) = None"

fun outcome_state :: "'a outcome \<Rightarrow> state" where
  "outcome_state (Return v s) = s"
| "outcome_state (Abort s) = s"
| "outcome_state (Fault s) = s"

fun aborted :: "'a outcome \<Rightarrow> bool" where
  "aborted (Return v s) = False"
| "aborted (Abort s) = True"
| "aborted (Fault s) = False"

definition sentinel_at :: "addr \<Rightarrow> state \<Rightarrow> 32 word" where
  "sentinel_at b s = load32 (mem s) b"

definition header_at :: "addr \<Rightarrow> state \<Rightarrow> 32 word \<times> 64 word \<times> addr" where
  "header_at b s = (sentinel_at b s, block_size s b, block_next s b)"

text \<open>
  \<open>look bs s\<close> is the free-list head, the break, and for each address of \<open>bs\<close> the sentinel
  word, the size and the next link of the header there.
\<close>

definition look :: "addr list \<Rightarrow> state \<Rightarrow> addr \<times> addr \<times> (32 word \<times> 64 word \<times> addr) list" where
  "look bs s = (HEAD s, brk s, map (\<lambda>b. header_at b s) bs)"

definition payload :: "addr \<Rightarrow> nat \<Rightarrow> state \<Rightarrow> 8 word list" where
  "payload p n s = load_bytes (mem s) p n"

text \<open>
  A client program that makes one call after another: the second call runs on the state the
  first one returned, and does not run when the first one aborted, faulted or never returned.
\<close>

definition and_then ::
    "'a outcome option \<Rightarrow> ('a \<Rightarrow> state \<Rightarrow> 'b outcome option) \<Rightarrow> 'b outcome option" where
  "and_then r f =
     (case r of
        None \<Rightarrow> None
      | Some (Return v s) \<Rightarrow> f v s
      | Some (Abort s) \<Rightarrow> Some (Abort s)
      | Some (Fault s) \<Rightarrow> Some (Fault s))"

text \<open>\<open>Release(Allocate(sz))\<close>, the same followed by \<open>Allocate(sz')\<close>, and a pointer released twice.\<close>

definition release_allocate :: "64 word \<Rightarrow> state \<Rightarrow> unit outcome option" where
  "release_allocate sz s = and_then (tumalloc sz s) tufree"

definition round_trip :: "64 word \<Rightarrow> 64 word \<Rightarrow> state \<Rightarrow> addr outcome option" where
  "round_trip sz sz' s = and_then (release_allocate sz s) (\<lambda>_. tumalloc sz')"

definition double_release :: "64 word \<Rightarrow> state \<Rightarrow> unit outcome option" where
  "double_release sz s = and_then (tumalloc sz s) (\<lambda>p s1. and_then (tufree p s1) (\<lambda>_. tufree p))"

definition release_both :: "addr \<Rightarrow> addr \<Rightarrow> state \<Rightarrow> unit outcome option" where
  "release_both p q s = and_then (tufree p s) (\<lambda>_. tufree q)"

text \<open>
  Concrete process states. \<open>blank\<close> is a fresh process: empty free list, zeroed memory, the
  break at \<open>0x2000\<close>. \<open>two_free\<close> has a free list of two blocks with 64-byte payloads, at
  \<open>0x1000\<close> and \<open>0x1100\<close>. \<open>small_free\<close> has one free block of 8 bytes and \<open>big_free\<close> one of
  32 MiB. \<open>dirty_free\<close> is \<open>two_free\<close> with the sixteen bytes from \<open>0x2010\<close> set to
  \<open>0xFF\<close>. \<open>held64\<close> has an empty free list and a block of 64 bytes at \<open>0x1000\<close> in the
  caller's hands, with data in its payload and without the magic number, and \<open>held_big\<close>
  the same with a block of 8 GiB; \<open>held_magic\<close> has
  two adjacent blocks in the caller's hands whose headers carry the magic number, that is whose
  size field reads \<open>0x01234567\<close>: the first at \<open>0x1000\<close>, the second right behind its
  payload at \<open>0x1235577\<close>. \<open>odd_break\<close> is \<open>blank\<close> with the break at \<open>0x2028\<close>, not a
  multiple of 16, and \<open>exhausted\<close> is \<open>blank\<close> with no heap growth left.
\<close>

definition blank :: state where
  "blank = \<lparr>HEAD = 0, mem = (\<lambda>_. 0), brk = 0x2000, brk_max = 0x10000000, stdout = []\<rparr>"

definition two_free :: state where
  "two_free =
     (set_next (set_size (set_next (set_size blank 0x1000 64) 0x1000 0x1100) 0x1100 64) 0x1100 0)
       \<lparr>HEAD := 0x1000\<rparr>"

definition small_free :: state where
  "small_free = (set_next (set_size blank 0x1000 8) 0x1000 0)\<lparr>HEAD := 0x1000\<rparr>"

definition big_free :: state where
  "big_free =
     (set_next (set_size blank 0x1000 0x2000000) 0x1000 0)\<lparr>HEAD := 0x1000, brk := 0x3000000\<rparr>"

definition held64 :: state where
  "held64 = set_size (blank\<lparr>mem := store64 (mem blank) 0x1010 0x1122334455667788\<rparr>) 0x1000 64"

definition held_big :: state where
  "held_big =
     set_size (blank\<lparr>mem := store64 (mem blank) 0x1010 0x1122334455667788, brk := 0x300000000,
       brk_max := 0x400000000\<rparr>) 0x1000 0x200000000"

definition dirty_free :: state where
  "dirty_free = two_free\<lparr>mem := store64 (store64 (mem two_free) 0x2010 (- 1)) 0x2018 (- 1)\<rparr>"

definition odd_break :: state where
  "odd_break = blank\<lparr>brk := 0x2028\<rparr>"

definition exhausted :: state where
  "exhausted = blank\<lparr>brk_max := 0x2000\<rparr>"

definition held_magic :: state where
  "held_magic = (set_size (set_size blank 0x1000 0x01234567) 0x1235577 0x01234567)\<lparr>brk := 0x3000000\<rparr>"

section \<open>Loads and stores\<close>

lemma bit_horner_bytes:
  "bit (horner_sum uint (256::int) (bs :: 8 word list)) n \<longleftrightarrow>
     n div 8 < length bs \<and> bit (bs ! (n div 8)) (n mod 8)"
  using bit_horner_sum_uint_exp_iff [where 'a = 8, of bs n] by simp

lemma bit_from_bytes:
  "bit (from_bytes bs :: 'a::len word) n \<longleftrightarrow>
     n < LENGTH('a) \<and> n div 8 < length bs \<and> bit (bs ! (n div 8)) (n mod 8)"
  unfolding from_bytes_def
  by (simp add: bit_word_of_int_iff bit_horner_bytes)

lemma length_to_bytes [simp]: "length (to_bytes n v) = n"
  by (simp add: to_bytes_def)

lemma nth_to_bytes: "i < n \<Longrightarrow> to_bytes n v ! i = ucast (drop_bit (8 * i) v)"
  by (simp add: to_bytes_def)

lemma length_load_bytes [simp]: "length (load_bytes m a n) = n"
  by (simp add: load_bytes_def)

lemma nth_load_bytes: "i < n \<Longrightarrow> load_bytes m a n ! i = m (a + of_nat i)"
  by (simp add: load_bytes_def)

lemma from_bytes_to_bytes64: "from_bytes (to_bytes 8 (v :: 64 word)) = v"
  apply (rule bit_word_eqI)
  apply (simp add: bit_from_bytes nth_to_bytes bit_simps)
  apply (auto simp: less_mult_imp_div_less)
  done

lemma from_bytes_to_bytes32: "from_bytes (to_bytes 4 (v :: 32 word)) = v"
  apply (rule bit_word_eqI)
  apply (simp add: bit_from_bytes nth_to_bytes bit_simps)
  apply (auto simp: less_mult_imp_div_less)
  done

lemma unat_offset:
  fixes a b :: addr
  assumes "unat (b - a) + i < 2 ^ 64"
  shows "unat (b + of_nat i - a) = unat (b - a) + i"
proof -
  have eq: "b + of_nat i - a = (b - a) + of_nat i" by simp
  have "unat ((b - a) + of_nat i) = unat (b - a) + i"
    using assms by (simp add: unat_word_ariths unat_of_nat)
  then show ?thesis by (simp only: eq)
qed

lemma load_bytes_store_bytes_disjoint:
  assumes "length bs \<le> unat (b - a)" and "unat (b - a) + n \<le> 2 ^ 64"
  shows "load_bytes (store_bytes m a bs) b n = load_bytes m b n"
proof (rule nth_equalityI)
  show "length (load_bytes (store_bytes m a bs) b n) = length (load_bytes m b n)" by simp
next
  fix i assume "i < length (load_bytes (store_bytes m a bs) b n)"
  then have i: "i < n" by simp
  with assms have "unat (b + of_nat i - a) = unat (b - a) + i"
    by (intro unat_offset) simp
  with assms i show "load_bytes (store_bytes m a bs) b n ! i = load_bytes m b n ! i"
    by (simp add: nth_load_bytes store_bytes_def)
qed

lemma load_bytes_store_bytes_same:
  assumes "n \<le> length bs" and "length bs \<le> 2 ^ 64"
  shows "load_bytes (store_bytes m a bs) a n = take n bs"
proof (rule nth_equalityI)
  show "length (load_bytes (store_bytes m a bs) a n) = length (take n bs)"
    using assms by simp
next
  fix i assume "i < length (load_bytes (store_bytes m a bs) a n)"
  then have i: "i < n" by simp
  with assms have "unat (of_nat i :: addr) = i"
    by (simp add: unat_of_nat)
  with assms i show "load_bytes (store_bytes m a bs) a n ! i = take n bs ! i"
    by (simp add: nth_load_bytes store_bytes_def)
qed

lemma load64_store64_same: "load64 (store64 m a v) a = v"
  by (simp add: load64_def store64_def load_bytes_store_bytes_same from_bytes_to_bytes64)

lemma load32_store32_same: "load32 (store32 m a v) a = v"
  by (simp add: load32_def store32_def load_bytes_store_bytes_same from_bytes_to_bytes32)

lemma load64_store64_disjoint:
  "8 \<le> unat (b - a) \<Longrightarrow> unat (b - a) \<le> 2 ^ 64 - 8 \<Longrightarrow> load64 (store64 m a v) b = load64 m b"
  by (simp add: load64_def store64_def load_bytes_store_bytes_disjoint)

lemma load64_store32_disjoint:
  "4 \<le> unat (b - a) \<Longrightarrow> unat (b - a) \<le> 2 ^ 64 - 8 \<Longrightarrow> load64 (store32 m a v) b = load64 m b"
  by (simp add: load64_def store32_def load_bytes_store_bytes_disjoint)

lemma load32_store64_disjoint:
  "8 \<le> unat (b - a) \<Longrightarrow> unat (b - a) \<le> 2 ^ 64 - 4 \<Longrightarrow> load32 (store64 m a v) b = load32 m b"
  by (simp add: load32_def store64_def load_bytes_store_bytes_disjoint)

lemma load32_store32_disjoint:
  "4 \<le> unat (b - a) \<Longrightarrow> unat (b - a) \<le> 2 ^ 64 - 4 \<Longrightarrow> load32 (store32 m a v) b = load32 m b"
  by (simp add: load32_def store32_def load_bytes_store_bytes_disjoint)

lemma load64_zero: "load64 (\<lambda>_. 0) a = 0"
  by (rule bit_word_eqI) (simp add: load64_def bit_from_bytes nth_load_bytes)

lemma load32_zero: "load32 (\<lambda>_. 0) a = 0"
  by (rule bit_word_eqI) (simp add: load32_def bit_from_bytes nth_load_bytes)

lemma load32_store64_same: "load32 (store64 m a v) a = ucast v"
proof (rule bit_word_eqI)
  fix n assume "n < LENGTH(32)"
  then have n: "n < 32" by simp
  then have k: "n div 8 < 4" by simp
  have "load_bytes (store_bytes m a (to_bytes 8 v)) a 4 = take 4 (to_bytes 8 v)"
    by (rule load_bytes_store_bytes_same) simp_all
  with k have "load_bytes (store_bytes m a (to_bytes 8 v)) a 4 ! (n div 8) =
      ucast (drop_bit (8 * (n div 8)) v)"
    by (simp add: nth_to_bytes)
  with n k show "bit (load32 (store64 m a v) a) n = bit (ucast v :: 32 word) n"
    unfolding load32_def store64_def
    by (simp add: bit_from_bytes bit_simps)
qed

lemma nth_load_store_bytes:
  assumes "i < n" and "n \<le> 2 ^ 64"
  shows "load_bytes (store_bytes m a bs) a n ! i = (if i < length bs then bs ! i else m (a + of_nat i))"
proof -
  from assms have "unat (of_nat i :: addr) = i"
    by (simp add: unat_of_nat)
  with assms show ?thesis
    by (simp add: nth_load_bytes store_bytes_def)
qed

lemma load64_store32_store64:
  "load64 (store32 (store64 m a v) a w) a = (v AND NOT (mask 32)) OR ucast w"
proof (rule bit_word_eqI)
  fix n assume "n < LENGTH(64)"
  then have n: "n < 64" by simp
  then have k: "n div 8 < 8" by simp
  have lo: "n div 8 < 4 \<longleftrightarrow> n < 32" by auto
  have byte: "load_bytes (store_bytes (store_bytes m a (to_bytes 8 v)) a (to_bytes 4 w)) a 8 ! (n div 8)
      = (if n < 32 then ucast (drop_bit (8 * (n div 8)) w) else ucast (drop_bit (8 * (n div 8)) v))"
    using k lo nth_load_store_bytes [of "n div 8" 8 "store_bytes m a (to_bytes 8 v)" a "to_bytes 4 w"]
      nth_load_store_bytes [of "n div 8" 8 m a "to_bytes 8 v"]
    by (simp add: nth_to_bytes nth_load_bytes)
  show "bit (load64 (store32 (store64 m a v) a w) a) n = bit ((v AND NOT (mask 32)) OR ucast w) n"
    unfolding load64_def store32_def store64_def
    using n k bit_imp_le_length [of w n] by (auto simp add: bit_from_bytes byte bit_simps)
qed


lemma store64_far: "8 \<le> unat (x - a) \<Longrightarrow> store64 m a v x = m x"
  by (simp add: store64_def store_bytes_def)


lemmas mem_eval = load64_store64_same load32_store32_same load64_store64_disjoint
  load64_store32_disjoint load32_store64_disjoint load32_store32_disjoint
  load64_zero load32_zero load32_store64_same load64_store32_store64

section \<open>Walks over a cyclic free list\<close>

text \<open>
  A free-list entry whose next link points to itself is a cycle: the two neighbour searches
  never return from it unless they find what they look for there.
\<close>

lemma find_prev_loop_cycle:
  assumes "cur \<noteq> 0" and "block_next s cur = cur"
    and "cur + block_size s cur + sizeof_free_block \<noteq> block"
  shows "find_prev_loop block s cur = None"
proof -
  define P where "P = (\<lambda>(b::addr) (st::state) (c::addr) (y::addr).
     \<not> (c \<noteq> 0 \<and> block_next st c = c \<and> c + block_size st c + sizeof_free_block \<noteq> b))"
  have "P block s cur y" if "find_prev_loop block s cur = Some y" for y
  proof (rule find_prev_loop.raw_induct [where P = P, OF _ that])
    fix loop b st c y'
    assume IH: "\<And>b st c y. loop b st c = Some y \<Longrightarrow> P b st c y"
    assume step: "(if c = 0 then Some 0
        else if c + block_size st c + sizeof_free_block = b then Some c
        else loop b st (block_next st c)) = Some y'"
    show "P b st c y'"
      unfolding P_def
    proof
      assume c: "c \<noteq> 0 \<and> block_next st c = c \<and> c + block_size st c + sizeof_free_block \<noteq> b"
      with step have "loop b st c = Some y'" by simp
      from IH [OF this] c show False by (simp add: P_def)
    qed
  qed
  with assms show ?thesis
    by (cases "find_prev_loop block s cur") (auto simp: P_def)
qed

lemma find_prev_loop_step:
  "cur = 0 \<Longrightarrow> find_prev_loop block s cur = Some 0"
  "cur \<noteq> 0 \<Longrightarrow> cur + block_size s cur + sizeof_free_block = block \<Longrightarrow>
     find_prev_loop block s cur = Some cur"
  "cur \<noteq> 0 \<Longrightarrow> cur + block_size s cur + sizeof_free_block \<noteq> block \<Longrightarrow>
     block_next s cur \<noteq> cur \<Longrightarrow>
     find_prev_loop block s cur = find_prev_loop block s (block_next s cur)"
  by (subst find_prev_loop.simps, simp)+

lemma find_next_loop_cycle:
  assumes "cur \<noteq> 0" and "block_next s cur = cur" and "cur \<noteq> block_end"
  shows "find_next_loop block_end s cur = None"
proof -
  define P where "P = (\<lambda>(e::addr) (st::state) (c::addr) (y::addr).
     \<not> (c \<noteq> 0 \<and> block_next st c = c \<and> c \<noteq> e))"
  have "P block_end s cur y" if "find_next_loop block_end s cur = Some y" for y
  proof (rule find_next_loop.raw_induct [where P = P, OF _ that])
    fix loop e st c y'
    assume IH: "\<And>e st c y. loop e st c = Some y \<Longrightarrow> P e st c y"
    assume step: "(if c = 0 then Some 0 else if c = e then Some c
        else loop e st (block_next st c)) = Some y'"
    show "P e st c y'"
      unfolding P_def
    proof
      assume c: "c \<noteq> 0 \<and> block_next st c = c \<and> c \<noteq> e"
      with step have "loop e st c = Some y'" by simp
      from IH [OF this] c show False by (simp add: P_def)
    qed
  qed
  with assms show ?thesis
    by (cases "find_next_loop block_end s cur") (auto simp: P_def)
qed

lemma find_next_loop_step:
  "cur = 0 \<Longrightarrow> find_next_loop block_end s cur = Some 0"
  "cur \<noteq> 0 \<Longrightarrow> cur = block_end \<Longrightarrow> find_next_loop block_end s cur = Some cur"
  "cur \<noteq> 0 \<Longrightarrow> cur \<noteq> block_end \<Longrightarrow> block_next s cur \<noteq> cur \<Longrightarrow>
     find_next_loop block_end s cur = find_next_loop block_end s (block_next s cur)"
  by (subst find_next_loop.simps, simp)+

text \<open>Unfolding the model on concrete states.\<close>

lemmas alloc_defs = block_size_def block_next_def set_size_def set_next_def sizeof_free_block_def
  ALIGNMENT_def MAGIC_def split_def find_prev_def find_next_def remove_free_block_def
  coalesce_prev_def coalesce_next_def coalesce_def sbrk_def do_alloc_def stamp_header_def
  tumalloc_grow_def tumalloc_def tucalloc_def tufree_def turealloc_def
  find_prev_loop.simps find_next_loop.simps remove_free_block_loop.simps tumalloc_loop.simps

lemmas run_cyclic_defs = block_size_def block_next_def set_size_def set_next_def
  sizeof_free_block_def ALIGNMENT_def MAGIC_def split_def find_prev_def find_next_def
  remove_free_block_def coalesce_prev_def coalesce_next_def coalesce_def sbrk_def do_alloc_def
  stamp_header_def tumalloc_grow_def tumalloc_def tufree_def
  find_prev_loop_step find_prev_loop_cycle find_next_loop_step find_next_loop_cycle
  remove_free_block_loop.simps tumalloc_loop.simps
  mem_eval blank_def and_then_def header_at_def sentinel_at_def look_def mask_eq_exp_minus_1

lemmas run_defs = alloc_defs mem_eval blank_def and_then_def header_at_def sentinel_at_def
  look_def mask_eq_exp_minus_1

section \<open>The splitter (C7)\<close>


lemma unat_scast_nonneg:
  fixes sz :: "32 word"
  assumes "0 \<le> sint sz"
  shows "unat (scast sz :: 64 word) = nat (sint sz)" and "nat (sint sz) < 2 ^ 31"
proof -
  have lt: "sint sz < 2 ^ 31" using sint_lt [of sz] by simp
  then show "nat (sint sz) < 2 ^ 31" using assms by simp
  have up: "sint (scast sz :: 64 word) = sint sz"
    by (rule sint_up_scast) (simp add: is_up)
  have "uint (scast sz :: 64 word) = take_bit 64 (sint sz)"
    using uint_sint [of "scast sz :: 64 word"] up by simp
  moreover have "take_bit 64 (sint sz) = sint sz"
  proof (rule take_bit_int_eq_self)
    show "0 \<le> sint sz" by (rule assms)
    have "(2::int) ^ 31 \<le> 2 ^ 64" by simp
    with lt show "sint sz < 2 ^ 64" by linarith
  qed
  ultimately show "unat (scast sz :: 64 word) = nat (sint sz)"
    by (simp add: unat_eq_nat_uint)
qed

lemma split_gap:
  fixes sz :: "32 word"
  assumes "0 \<le> sint sz"
  shows "unat (scast sz + sizeof_free_block :: 64 word) = nat (sint sz) + 16"
  using unat_scast_nonneg [OF assms]
  by (simp add: sizeof_free_block_def unat_word_ariths)


lemma header_disjoint:
  fixes d :: "64 word"
  assumes "16 \<le> unat d" and "unat d \<le> 2 ^ 32"
  shows "8 \<le> unat (8 - d)" and "unat (8 - d) \<le> 2 ^ 64 - 8"
    and "8 \<le> unat (d + 8)" and "unat (d + 8) \<le> 2 ^ 64 - 8"
    and "8 \<le> unat d" and "unat d \<le> 2 ^ 64 - 8"
proof -
  have d: "16 \<le> unat d" "unat d \<le> 4294967296" using assms by simp_all
  have "unat (8 - d) = 8 + 18446744073709551616 - unat d"
    using d by (simp add: unat_sub_if_size word_size)
  with d show "8 \<le> unat (8 - d)" and "unat (8 - d) \<le> 2 ^ 64 - 8" by simp_all
  have "unat (d + 8) = unat d + 8"
    using d by (simp add: unat_plus_if_size word_size)
  with d show "8 \<le> unat (d + 8)" and "unat (d + 8) \<le> 2 ^ 64 - 8" by simp_all
  from d show "8 \<le> unat d" and "unat d \<le> 2 ^ 64 - 8" by simp_all
qed


lemma split_mem:
  fixes b nb :: addr
  assumes "16 \<le> unat (nb - b)" and "unat (nb - b) \<le> 2 ^ 32"
  shows "load64 (store64 (store64 (store64 m nb v1) (nb + 8) v2) b v3) b = v3"
    and "load64 (store64 (store64 (store64 m nb v1) (nb + 8) v2) b v3) nb = v1"
    and "load64 (store64 (store64 (store64 m nb v1) (nb + 8) v2) b v3) (nb + 8) = v2"
    and "load64 (store64 m nb v1) (b + 8) = load64 m (b + 8)"
proof -
  note dis = header_disjoint [OF assms]
  have a1: "b + 8 - nb = 8 - (nb - b)" by simp
  have a2: "nb - (nb + 8) = - 8" by simp
  have a4: "nb + 8 - b = nb - b + 8" by simp
  have far: "8 \<le> unat (- 8 :: 64 word)" "unat (- 8 :: 64 word) \<le> 2 ^ 64 - 8" by simp_all
  show "load64 (store64 (store64 (store64 m nb v1) (nb + 8) v2) b v3) b = v3"
    by (rule load64_store64_same)
  have "load64 (store64 (store64 (store64 m nb v1) (nb + 8) v2) b v3) nb =
        load64 (store64 (store64 m nb v1) (nb + 8) v2) nb"
    by (rule load64_store64_disjoint) (rule dis)+
  also have "\<dots> = load64 (store64 m nb v1) nb"
    by (rule load64_store64_disjoint) (simp_all only: a2 far)
  finally show "load64 (store64 (store64 (store64 m nb v1) (nb + 8) v2) b v3) nb = v1"
    by (simp only: load64_store64_same)
  have "load64 (store64 (store64 (store64 m nb v1) (nb + 8) v2) b v3) (nb + 8) =
        load64 (store64 (store64 m nb v1) (nb + 8) v2) (nb + 8)"
    by (rule load64_store64_disjoint) (simp_all only: a4 dis)
  then show "load64 (store64 (store64 (store64 m nb v1) (nb + 8) v2) b v3) (nb + 8) = v2"
    by (simp only: load64_store64_same)
  show "load64 (store64 m nb v1) (b + 8) = load64 m (b + 8)"
    by (rule load64_store64_disjoint) (simp_all only: a1 dis)
qed

lemma split_success:
  fixes sz :: "32 word"
  assumes nonneg: "0 \<le> sint sz"
    and fits: "\<not> block_size s block < scast sz + sizeof_free_block"
  shows "fst (split block sz s) = block"
    and "block_size (snd (split block sz s)) block = scast sz"
    and "block_size (snd (split block sz s)) (block + scast sz + sizeof_free_block) =
           block_size s block - scast sz - sizeof_free_block"
    and "block_next (snd (split block sz s)) (block + scast sz + sizeof_free_block) =
           block_next s block"
    and "HEAD (snd (split block sz s)) = HEAD s"
    and "brk (snd (split block sz s)) = brk s"
proof -
  have gap: "block + scast sz + sizeof_free_block - block = scast sz + sizeof_free_block"
    by simp
  have "nat (sint sz) < 2 ^ 31" by (rule unat_scast_nonneg [OF nonneg])
  then have "16 \<le> unat (block + scast sz + sizeof_free_block - block)"
    and "unat (block + scast sz + sizeof_free_block - block) \<le> 2 ^ 32"
    unfolding gap split_gap [OF nonneg] by simp_all
  note mem = split_mem [OF this]
  show "fst (split block sz s) = block"
    using fits by (simp add: split_def Let_def)
  show "block_size (snd (split block sz s)) block = scast sz"
    using fits by (simp add: split_def Let_def block_size_def set_size_def set_next_def mem)
  show "block_size (snd (split block sz s)) (block + scast sz + sizeof_free_block) =
           block_size s block - scast sz - sizeof_free_block"
    using fits by (simp add: split_def Let_def block_size_def set_size_def set_next_def block_next_def mem)
  show "block_next (snd (split block sz s)) (block + scast sz + sizeof_free_block) =
           block_next s block"
    using fits by (simp add: split_def Let_def block_size_def set_size_def set_next_def block_next_def mem)
  show "HEAD (snd (split block sz s)) = HEAD s"
    using fits by (simp add: split_def Let_def set_size_def set_next_def)
  show "brk (snd (split block sz s)) = brk s"
    using fits by (simp add: split_def Let_def set_size_def set_next_def)
qed



text \<open>
  C7, as the code has it. For a requested size that is a non-negative \<^verbatim>\<open>int\<close>, \<open>split\<close> fails, returning null
  and leaving the whole state unchanged, exactly when the candidate's size is below the
  requested size plus the header size (as natural numbers, nothing wraps). When it succeeds it
  returns the candidate, the candidate's size field is the requested size, and the header at
  candidate + requested size + header size has as size the old size minus the requested size
  minus the header size and as next link the candidate's old next link.
\<close>

theorem split_contract:
  fixes sz :: "32 word"
  assumes nonneg: "0 \<le> sint sz"
  shows "(split block sz s = (0, s)) = (unat (block_size s block) < nat (sint sz) + 16) \<and>
    (nat (sint sz) + 16 \<le> unat (block_size s block) \<longrightarrow>
       fst (split block sz s) = block \<and>
       block_size (snd (split block sz s)) block = scast sz \<and>
       unat (scast sz :: 64 word) = nat (sint sz) \<and>
       block_size (snd (split block sz s)) (block + scast sz + sizeof_free_block) =
         block_size s block - scast sz - sizeof_free_block \<and>
       unat (block_size s block - scast sz - sizeof_free_block) =
         unat (block_size s block) - nat (sint sz) - 16 \<and>
       block_next (snd (split block sz s)) (block + scast sz + sizeof_free_block) =
         block_next s block)"
proof -
  let ?d = "scast sz + sizeof_free_block :: 64 word"
  have ud: "unat ?d = nat (sint sz) + 16" by (rule split_gap [OF nonneg])
  have us: "unat (scast sz :: 64 word) = nat (sint sz)" by (rule unat_scast_nonneg [OF nonneg])
  have cond: "(block_size s block < ?d) = (unat (block_size s block) < nat (sint sz) + 16)"
    by (simp add: word_less_nat_alt ud)
  have fail: "split block sz s = (0, s)" if "block_size s block < ?d"
    using that by (simp add: split_def)
  have succ: "split block sz s \<noteq> (0, s)" if fits: "\<not> block_size s block < ?d"
  proof
    assume "split block sz s = (0, s)"
    then have "snd (split block sz s) = s" by simp
    with split_success(2) [OF nonneg fits] have "block_size s block = scast sz" by simp
    with fits cond us show False by simp
  qed
  have rest: "unat (block_size s block - scast sz - sizeof_free_block) =
      unat (block_size s block) - nat (sint sz) - 16" if fits: "\<not> block_size s block < ?d"
  proof -
    have eq: "block_size s block - scast sz - sizeof_free_block = block_size s block - ?d"
      by simp
    have "unat (block_size s block - ?d) = unat (block_size s block) - unat ?d"
      using fits by (intro unat_sub) (simp add: not_less)
    then show ?thesis unfolding eq ud by simp
  qed
  show ?thesis
  proof (cases "block_size s block < ?d")
    case True
    with fail cond show ?thesis by simp
  next
    case False
    with succ cond rest split_success [OF nonneg False] us show ?thesis by simp
  qed
qed

theorem split_contract_witness:
  "0 \<le> sint (32 :: 32 word) \<and> 0 \<le> sint (56 :: 32 word) \<and>
   split 0x1000 56 two_free = (0, two_free) \<and>
   fst (split 0x1000 32 two_free) = 0x1000 \<and>
   block_size (snd (split 0x1000 32 two_free)) 0x1000 = 32 \<and>
   block_size (snd (split 0x1000 32 two_free)) 0x1030 = 16 \<and>
   block_next (snd (split 0x1000 32 two_free)) 0x1030 = 0x1100"
proof -
  have sz: "block_size two_free 0x1000 = 64" and nx: "block_next two_free 0x1000 = 0x1100"
    by (simp_all add: two_free_def blank_def block_size_def block_next_def set_size_def
        set_next_def mem_eval)
  have a: "0 \<le> sint (32 :: 32 word)" and b: "0 \<le> sint (56 :: 32 word)" by simp_all
  show ?thesis
    using split_contract [OF a, of "0x1000" two_free] split_contract [OF b, of "0x1000" two_free]
    by (simp add: sz nx sizeof_free_block_def)
qed

text \<open>
  C7 fails as stated for a negative requested size, which the \<^verbatim>\<open>int\<close> parameter admits. On the
  first block of \<open>two_free\<close> (size 64, next link \<open>0x1100\<close>) a requested size of -8 passes
  the comparison, so the split goes ahead, and the new header lands at \<open>0x1008\<close>, on top of
  the candidate's own next field: its size is stored there first, and the next link it then
  copies from the candidate is that size, 56, instead of the candidate's old next link.
\<close>

theorem split_negative_size_counterexample:
  "sint (- 8 :: 32 word) = - 8 \<and>
   header_at 0x1000 two_free = (64, 64, 0x1100) \<and>
   fst (split 0x1000 (- 8) two_free) = 0x1000 \<and>
   header_at 0x1008 (snd (split 0x1000 (- 8) two_free)) = (56, 56, 56)"
  by (simp add: run_defs two_free_def)

section \<open>Shrinking in place (C6)\<close>

lemma int_size_small:
  fixes n :: "64 word"
  assumes "n < 0x80000000"
  shows "0 \<le> sint (ucast n :: 32 word)" and "scast (ucast n :: 32 word) = n"
proof -
  have u: "uint n < 2 ^ 31" using assms by (simp add: word_less_def)
  have t31: "signed_take_bit 31 (uint n) = uint n"
  proof (rule signed_take_bit_int_eq_self)
    have "- (2 ^ 31) \<le> (0::int)" by simp
    also have "0 \<le> uint n" by (rule uint_nonnegative)
    finally show "- (2 ^ 31) \<le> uint n" .
    show "uint n < 2 ^ 31" by (rule u)
  qed
  have s: "sint (ucast n :: 32 word) = uint n"
    unfolding ucast_eq sint_sbintrunc' by (simp add: t31)
  then show "0 \<le> sint (ucast n :: 32 word)" by simp
  show "scast (ucast n :: 32 word) = n"
    unfolding scast_eq s by simp
qed


lemma split_HEAD: "HEAD (snd (split block sz s)) = HEAD s"
  by (simp add: split_def Let_def set_size_def set_next_def)

lemma split_frame:
  assumes "8 \<le> unat (x - block)"
    and "8 \<le> unat (x - (block + scast sz + sizeof_free_block))"
    and "8 \<le> unat (x - (block + scast sz + sizeof_free_block + 8))"
  shows "mem (snd (split block sz s)) x = mem s x"
  using assms by (simp add: split_def Let_def set_size_def set_next_def store64_far)

lemma payload_clear_of_headers:
  fixes n :: "64 word"
  assumes n: "n < 0x80000000" and i: "i < unat n"
  shows "8 \<le> unat (of_nat i + 16 :: 64 word)"
    and "8 \<le> unat (of_nat i - n :: 64 word)"
    and "8 \<le> unat (of_nat i - (n + 8) :: 64 word)"
proof -
  have un: "unat n < 2147483648" using n by (simp add: word_less_nat_alt)
  with i have ui: "unat (of_nat i :: 64 word) = i" by (simp add: unat_of_nat)
  have "unat (of_nat i + 16 :: 64 word) = i + 16"
    using ui un i by (simp add: unat_plus_if_size word_size)
  then show "8 \<le> unat (of_nat i + 16 :: 64 word)" by simp
  have "unat (of_nat i - n :: 64 word) = i + 18446744073709551616 - unat n"
    using ui un i by (simp add: unat_sub_if_size word_size)
  with un show "8 \<le> unat (of_nat i - n :: 64 word)" by simp
  have n8: "unat (n + 8) = unat n + 8"
    using un by (simp add: unat_plus_if_size word_size)
  have "unat (of_nat i - (n + 8) :: 64 word) = i + 18446744073709551616 - (unat n + 8)"
    using ui un i n8 by (simp add: unat_sub_if_size word_size)
  with un show "8 \<le> unat (of_nat i - (n + 8) :: 64 word)" by simp
qed


text \<open>
  C6, as the code has it. For a non-null pointer and a new size below the block's size (and
  below \<open>2^31\<close>, so that the conversion to \<^verbatim>\<open>int\<close> keeps it), \<open>turealloc\<close> returns the same
  pointer and preserves the first \<open>new_size\<close> bytes of the payload. When the block's size is
  below the new size plus the header size, the splitter refuses and nothing at all changes;
  otherwise the block is truncated in place, its size becomes the new size, and the residual's
  header is written right behind the shortened payload, with the rest as size and the block's
  own next field as link.
\<close>

theorem turealloc_shrink:
  assumes ptr: "ptr \<noteq> 0"
    and smaller: "new_size < block_size s (ptr - sizeof_free_block)"
    and small: "new_size < 0x80000000"
  shows "\<exists>s'. turealloc ptr new_size s = Some (Return ptr s') \<and>
     (\<forall>i < unat new_size. mem s' (ptr + of_nat i) = mem s (ptr + of_nat i)) \<and>
     (if block_size s (ptr - sizeof_free_block) < new_size + sizeof_free_block then s' = s
      else block_size s' (ptr - sizeof_free_block) = new_size \<and>
           block_size s' (ptr + new_size) =
             block_size s (ptr - sizeof_free_block) - new_size - sizeof_free_block \<and>
           block_next s' (ptr + new_size) = block_next s (ptr - sizeof_free_block))"
proof -
  define block where "block = ptr - sizeof_free_block"
  define sz :: "32 word" where "sz = ucast new_size"
  define s' where "s' = snd (split block sz s)"
  have nonneg: "0 \<le> sint sz" and widen: "scast sz = new_size"
    using int_size_small [OF small] by (simp_all add: sz_def)
  have residual: "block + new_size + sizeof_free_block = ptr + new_size"
    by (simp add: block_def)
  have run: "turealloc ptr new_size s = Some (Return ptr s')"
    using ptr smaller
    by (simp add: turealloc_def Let_def s'_def block_def sz_def split: prod.split)
  have prefix: "mem s' (ptr + of_nat i) = mem s (ptr + of_nat i)" if i: "i < unat new_size" for i
  proof -
    note far = payload_clear_of_headers [OF small i]
    have e1: "ptr + of_nat i - block = of_nat i + 16"
      by (simp add: block_def sizeof_free_block_def)
    have e2: "ptr + of_nat i - (block + scast sz + sizeof_free_block) = of_nat i - new_size"
      by (simp add: block_def widen)
    have e3: "ptr + of_nat i - (block + scast sz + sizeof_free_block + 8) = of_nat i - (new_size + 8)"
      by (simp add: block_def widen)
    show ?thesis
      unfolding s'_def by (rule split_frame) (simp_all only: e1 e2 e3 far)
  qed
  have shape: "if block_size s block < new_size + sizeof_free_block then s' = s
      else block_size s' block = new_size \<and>
           block_size s' (ptr + new_size) = block_size s block - new_size - sizeof_free_block \<and>
           block_next s' (ptr + new_size) = block_next s block"
  proof (cases "block_size s block < new_size + sizeof_free_block")
    case True
    then show ?thesis by (simp add: s'_def split_def widen)
  next
    case False
    then have fits: "\<not> block_size s block < scast sz + sizeof_free_block" by (simp add: widen)
    from split_success(2-4) [OF nonneg fits] False show ?thesis
      by (simp add: s'_def widen residual)
  qed
  from run prefix shape show ?thesis
    unfolding block_def by blast
qed

theorem turealloc_shrink_witness:
  "(0x1010 :: addr) \<noteq> 0 \<and>
   16 < block_size held64 (0x1010 - sizeof_free_block) \<and>
   60 < block_size held64 (0x1010 - sizeof_free_block) \<and>
   (16 :: 64 word) < 0x80000000 \<and> (60 :: 64 word) < 0x80000000 \<and>
   turealloc 0x1010 60 held64 = Some (Return 0x1010 held64) \<and>
   (\<exists>s'. turealloc 0x1010 16 held64 = Some (Return 0x1010 s') \<and>
      payload 0x1010 16 s' = payload 0x1010 16 held64 \<and>
      block_size s' 0x1000 = 16 \<and> block_size s' 0x1020 = 32 \<and>
      block_next s' 0x1020 = block_next held64 0x1000)"
proof -
  have p: "(0x1010 :: addr) \<noteq> 0" by simp
  have sz: "block_size held64 (0x1010 - sizeof_free_block) = 64"
    by (simp add: run_defs held64_def)
  have sz': "block_size held64 0x1000 = 64"
    by (simp add: run_defs held64_def)
  have h16: "16 < block_size held64 (0x1010 - sizeof_free_block)"
    and h60: "60 < block_size held64 (0x1010 - sizeof_free_block)"
    by (simp_all add: sz)
  have s16: "(16 :: 64 word) < 0x80000000" and s60: "(60 :: 64 word) < 0x80000000"
    by simp_all
  from turealloc_shrink [OF p h60 s60]
  have c60: "turealloc 0x1010 60 held64 = Some (Return 0x1010 held64)"
    by (auto simp add: sz' sizeof_free_block_def)
  from turealloc_shrink [OF p h16 s16]
  obtain s' where c16: "turealloc 0x1010 16 held64 = Some (Return 0x1010 s')"
    and prefix: "\<forall>i < unat (16 :: 64 word). mem s' (0x1010 + of_nat i) = mem held64 (0x1010 + of_nat i)"
    and shape: "block_size s' 0x1000 = 16 \<and> block_size s' 0x1020 = 32 \<and>
      block_next s' 0x1020 = block_next held64 0x1000"
    by (auto simp add: sz' sizeof_free_block_def)
  have "payload 0x1010 16 s' = payload 0x1010 16 held64"
    by (rule nth_equalityI) (use prefix in \<open>simp_all add: payload_def nth_load_bytes\<close>)
  with p h16 h60 s16 s60 c60 c16 shape show ?thesis by blast
qed

text \<open>
  C6 fails as stated. Shrinking the 64-byte block to 60 bytes leaves its size at 64, since the
  four bytes cut off cannot hold a header; shrinking it to 16 bytes does write a residual header
  at \<open>0x1020\<close>, but the free list is as empty afterwards as it was before. And shrinking the
  8 GiB block to 4 GiB, a size that the \<^verbatim>\<open>int\<close> parameter of \<open>split\<close> receives as 0, sets the
  block's size to 0 and writes the residual header over the first sixteen bytes of the payload.
\<close>

theorem turealloc_shrink_counterexample:
  "map_option outcome_value (turealloc 0x1010 60 held64) = Some (Some 0x1010) \<and>
   map_option (look [0x1000] \<circ> outcome_state) (turealloc 0x1010 60 held64) =
     Some (0, 0x2000, [(64, 64, 0)]) \<and>
   map_option outcome_value (turealloc 0x1010 16 held64) = Some (Some 0x1010) \<and>
   map_option (look [0x1000, 0x1020] \<circ> outcome_state) (turealloc 0x1010 16 held64) =
     Some (0, 0x2000, [(16, 16, 0), (32, 32, 0)]) \<and>
   look [0x1000, 0x1010] held_big =
     (0, 0x300000000, [(0, 0x200000000, 0), (0x55667788, 0x1122334455667788, 0)]) \<and>
   map_option outcome_value (turealloc 0x1010 0x100000000 held_big) = Some (Some 0x1010) \<and>
   map_option (look [0x1000, 0x1010] \<circ> outcome_state) (turealloc 0x1010 0x100000000 held_big) =
     Some (0, 0x300000000, [(0, 0, 0), (0xFFFFFFF0, 0x1FFFFFFF0, 0)])"
  by (simp add: run_defs held64_def held_big_def)

section \<open>The magic number and the size field (C10)\<close>

text \<open>The fit branch of the loop goes through \<open>stamp_header\<close> and on to the next entry.\<close>

lemma tumalloc_loop_fit:
  assumes "cur \<noteq> 0" and "sz \<le> block_size s cur"
    and "split cur (ucast (sz + sizeof_free_block)) s = (split_ptr, s1)" and "split_ptr \<noteq> 0"
    and "remove_free_block cur s1 = Some s2"
  shows "tumalloc_loop sz s cur =
    tumalloc_loop sz (stamp_header split_ptr sz s2) (block_next (stamp_header split_ptr sz s2) cur)"
  using assms by (subst tumalloc_loop.simps) (simp add: Let_def)

text \<open>
  C10, as the code has it. After lines 174 to 179 the four bytes at the header address are the
  magic number, and the size field is the requested size with its low 32 bits replaced by the
  magic number: it still equals the requested size exactly when the low 32 bits of the
  requested size are \<open>0x01234567\<close> already.
\<close>

theorem stamp_header_effect:
  "load32 (mem (stamp_header b sz s)) b = MAGIC \<and>
   block_size (stamp_header b sz s) b = (sz AND 0xFFFFFFFF00000000) OR ucast MAGIC \<and>
   (block_size (stamp_header b sz s) b = sz) = (ucast sz = MAGIC) \<and>
   HEAD (stamp_header b sz s) = HEAD s"
proof -
  have eq: "((sz AND NOT (mask 32)) OR ucast MAGIC = sz) = (ucast sz = MAGIC)"
  proof
    assume a: "(sz AND NOT (mask 32)) OR ucast MAGIC = sz"
    show "ucast sz = MAGIC"
    proof (rule bit_word_eqI)
      fix n assume "n < LENGTH(32)"
      then show "bit (ucast sz :: 32 word) n = bit MAGIC n"
        using arg_cong [OF a, of "\<lambda>w. bit w n"] by (auto simp add: bit_simps)
    qed
  next
    assume a: "ucast sz = MAGIC"
    show "(sz AND NOT (mask 32)) OR ucast MAGIC = sz"
    proof (rule bit_word_eqI)
      fix n assume "n < LENGTH(64)"
      then show "bit ((sz AND NOT (mask 32)) OR ucast MAGIC) n = bit sz n"
        unfolding a [symmetric] by (auto simp add: bit_simps)
    qed
  qed
  have high: "NOT (mask 32) = (0xFFFFFFFF00000000 :: 64 word)"
    by (simp add: mask_eq_exp_minus_1)
  show ?thesis
    by (simp add: stamp_header_def set_size_def block_size_def load32_store32_same
        load64_store32_store64 eq) (simp add: high)
qed


text \<open>
  C10 fails as stated for a requested size whose low 32 bits are the magic number: a request
  of \<open>0x01234567\<close> bytes served from the 32 MiB free block leaves a header whose size field is
  still the requested size.
\<close>

theorem stamp_keeps_magic_size:
  "map_option outcome_value (tumalloc 0x1234567 big_free) = Some (Some 0x3000010) \<and>
   map_option (look [0x1000] \<circ> outcome_state) (tumalloc 0x1234567 big_free) =
     Some (0, 0x4234587, [(MAGIC, 0x1234567, 0)])"
  by (simp add: run_defs big_free_def)

section \<open>Release (C4)\<close>

text \<open>
  C4. Releasing the null pointer changes nothing. For any other pointer the header is the
  sixteen bytes before it. If the \<^verbatim>\<open>unsigned int\<close> at the header is not the magic number, the
  two diagnostic lines are printed and the process aborts, with the free list and the memory
  as they were. If it is, the block is pushed on the head of the free list (its next link is
  the old head, the head is the block, no other byte changes) and the outcome is that of
  \<open>coalesce\<close> on the block in that state.
\<close>

theorem tufree_contract:
  "tufree 0 s = Some (Return () s) \<and>
   (ptr \<noteq> 0 \<and> load32 (mem s) (ptr - sizeof_free_block) \<noteq> MAGIC \<longrightarrow>
      tufree ptr s =
        Some (Abort (s\<lparr>stdout := stdout s @
          [Corruption_detected, Corruption_at (ptr - sizeof_free_block)]\<rparr>))) \<and>
   (ptr \<noteq> 0 \<and> load32 (mem s) (ptr - sizeof_free_block) = MAGIC \<longrightarrow>
      (\<exists>pushed.
         HEAD pushed = ptr - sizeof_free_block \<and>
         block_next pushed (ptr - sizeof_free_block) = HEAD s \<and>
         (\<forall>x. 8 \<le> unat (x - (ptr - sizeof_free_block + 8)) \<longrightarrow> mem pushed x = mem s x) \<and>
         brk pushed = brk s \<and> stdout pushed = stdout s \<and>
         tufree ptr s =
           map_option (Return () \<circ> snd) (coalesce (ptr - sizeof_free_block) pushed)))"
proof (intro conjI impI)
  show "tufree 0 s = Some (Return () s)"
    by (simp add: tufree_def)
next
  assume "ptr \<noteq> 0 \<and> load32 (mem s) (ptr - sizeof_free_block) \<noteq> MAGIC"
  then show "tufree ptr s =
        Some (Abort (s\<lparr>stdout := stdout s @
          [Corruption_detected, Corruption_at (ptr - sizeof_free_block)]\<rparr>))"
    by (simp add: tufree_def)
next
  assume a: "ptr \<noteq> 0 \<and> load32 (mem s) (ptr - sizeof_free_block) = MAGIC"
  define pushed where
    "pushed = (set_next s (ptr - sizeof_free_block) (HEAD s))\<lparr>HEAD := ptr - sizeof_free_block\<rparr>"
  have run: "tufree ptr s =
      map_option (Return () \<circ> snd) (coalesce (ptr - sizeof_free_block) pushed)"
    using a
    by (cases "coalesce (ptr - sizeof_free_block) pushed")
       (auto simp add: tufree_def pushed_def)
  have "HEAD pushed = ptr - sizeof_free_block"
    and "block_next pushed (ptr - sizeof_free_block) = HEAD s"
    and "\<forall>x. 8 \<le> unat (x - (ptr - sizeof_free_block + 8)) \<longrightarrow> mem pushed x = mem s x"
    and "brk pushed = brk s" and "stdout pushed = stdout s"
    by (simp_all add: pushed_def set_next_def block_next_def load64_store64_same store64_far)
  with run show "\<exists>pushed.
         HEAD pushed = ptr - sizeof_free_block \<and>
         block_next pushed (ptr - sizeof_free_block) = HEAD s \<and>
         (\<forall>x. 8 \<le> unat (x - (ptr - sizeof_free_block + 8)) \<longrightarrow> mem pushed x = mem s x) \<and>
         brk pushed = brk s \<and> stdout pushed = stdout s \<and>
         tufree ptr s =
           map_option (Return () \<circ> snd) (coalesce (ptr - sizeof_free_block) pushed)"
    by blast
qed

theorem tufree_contract_witness:
  "tufree 0 blank = Some (Return () blank) \<and>
   (0x1010 :: addr) \<noteq> 0 \<and>
   load32 (mem held64) (0x1010 - sizeof_free_block) \<noteq> MAGIC \<and>
   tufree 0x1010 held64 =
     Some (Abort (held64\<lparr>stdout := stdout held64 @
       [Corruption_detected, Corruption_at (0x1010 - sizeof_free_block)]\<rparr>)) \<and>
   load32 (mem held_magic) (0x1010 - sizeof_free_block) = MAGIC \<and>
   (\<exists>pushed. HEAD pushed = 0x1010 - sizeof_free_block \<and>
      block_next pushed (0x1010 - sizeof_free_block) = HEAD held_magic \<and>
      tufree 0x1010 held_magic =
        map_option (Return () \<circ> snd) (coalesce (0x1010 - sizeof_free_block) pushed)) \<and>
   map_option (look [0x1000] \<circ> outcome_state) (tufree 0x1010 held_magic) =
     Some (0x1000, 0x3000000, [(MAGIC, 0x1234567, 0)])"
proof -
  have bad: "(0x1010 :: addr) \<noteq> 0 \<and> load32 (mem held64) (0x1010 - sizeof_free_block) \<noteq> MAGIC"
    by (simp add: run_defs held64_def held_magic_def)
  have good: "(0x1010 :: addr) \<noteq> 0 \<and> load32 (mem held_magic) (0x1010 - sizeof_free_block) = MAGIC"
    by (simp add: run_defs held64_def held_magic_def)
  have seen: "map_option (look [0x1000] \<circ> outcome_state) (tufree 0x1010 held_magic) =
     Some (0x1000, 0x3000000, [(MAGIC, 0x1234567, 0)])"
    by (simp add: run_defs held64_def held_magic_def)
  note c = tufree_contract [of blank "0x1010"] tufree_contract [of held64 "0x1010"]
    tufree_contract [of held_magic "0x1010"]
  from c(1) have "tufree 0 blank = Some (Return () blank)" by blast
  moreover from c(2) bad have "tufree 0x1010 held64 =
     Some (Abort (held64\<lparr>stdout := stdout held64 @
       [Corruption_detected, Corruption_at (0x1010 - sizeof_free_block)]\<rparr>))" by blast
  moreover from c(3) good have "\<exists>pushed. HEAD pushed = 0x1010 - sizeof_free_block \<and>
      block_next pushed (0x1010 - sizeof_free_block) = HEAD held_magic \<and>
      tufree 0x1010 held_magic =
        map_option (Return () \<circ> snd) (coalesce (0x1010 - sizeof_free_block) pushed)" by blast
  ultimately show ?thesis using bad good seen by blast
qed

section \<open>Zero-initialised allocation (C9)\<close>

lemma memset_inside: "i < unat n \<Longrightarrow> memset m p c n (p + of_nat i) = c"
proof -
  assume i: "i < unat n"
  have "unat n < 2 ^ 64" using unsigned_less [of n] by simp
  with i have "unat (of_nat i :: 64 word) = i" by (simp add: unat_of_nat)
  with i have "(of_nat i :: 64 word) < n" by (simp add: word_less_nat_alt)
  then show ?thesis by (simp add: memset_def)
qed

lemma memset_outside: "unat n \<le> unat (x - p) \<Longrightarrow> memset m p c n x = m x"
  by (simp add: memset_def word_less_nat_alt)

text \<open>
  C9. \<open>tucalloc\<close> passes the product \<open>num * sz\<close>, computed in \<^verbatim>\<open>size_t\<close>, to \<open>tumalloc\<close>.
  When that returns a non-null pointer, \<open>tucalloc\<close> returns the same pointer in a state where
  every byte of the \<open>num * sz\<close> bytes from the pointer is zero and nothing else differs from
  the state \<open>tumalloc\<close> left. When it returns null, \<open>tucalloc\<close> returns null in the state
  \<open>tumalloc\<close> left, and it ends as \<open>tumalloc\<close> does when that does not return.
\<close>

theorem tucalloc_zero_fill:
  "(case tumalloc (num * sz) s of
      None \<Rightarrow> tucalloc num sz s = None
    | Some (Return ptr s1) \<Rightarrow>
        if ptr = 0 then tucalloc num sz s = Some (Return 0 s1)
        else (\<exists>s'. tucalloc num sz s = Some (Return ptr s') \<and>
               (\<forall>i < unat (num * sz). mem s' (ptr + of_nat i) = 0) \<and>
               (\<forall>x. unat (num * sz) \<le> unat (x - ptr) \<longrightarrow> mem s' x = mem s1 x) \<and>
               HEAD s' = HEAD s1 \<and> brk s' = brk s1 \<and> stdout s' = stdout s1)
    | Some (Abort s1) \<Rightarrow> tucalloc num sz s = Some (Abort s1)
    | Some (Fault s1) \<Rightarrow> tucalloc num sz s = Some (Fault s1))"
  by (auto simp add: tucalloc_def Let_def memset_inside memset_outside
      split: option.split outcome.split)

theorem tucalloc_zero_fill_witness:
  "load64 (mem dirty_free) 0x2010 = 0xFFFFFFFFFFFFFFFF \<and>
   load64 (mem dirty_free) 0x2018 = 0xFFFFFFFFFFFFFFFF \<and>
   map_option outcome_value (tumalloc (2 * 8) dirty_free) = Some (Some 0x2010) \<and>
   map_option outcome_value (tucalloc 2 8 dirty_free) = Some (Some 0x2010) \<and>
   map_option (payload 0x2010 16 \<circ> outcome_state) (tucalloc 2 8 dirty_free) =
     Some (replicate 16 0) \<and>
   map_option outcome_value (tumalloc (5 * 8) dirty_free) = Some (Some 0) \<and>
   map_option outcome_value (tucalloc 5 8 dirty_free) = Some (Some 0)"
proof -
  have before: "load64 (mem dirty_free) 0x2010 = 0xFFFFFFFFFFFFFFFF"
    "load64 (mem dirty_free) 0x2018 = 0xFFFFFFFFFFFFFFFF"
    by (simp_all add: run_defs two_free_def dirty_free_def)
  have e1: "map_option outcome_value (tumalloc (2 * 8) dirty_free) = Some (Some 0x2010)"
    by (simp add: run_defs two_free_def dirty_free_def)
  then obtain s1 where t1: "tumalloc (2 * 8) dirty_free = Some (Return 0x2010 s1)"
    by (auto elim: outcome_value.elims)
  from tucalloc_zero_fill [of 2 8 dirty_free] t1
  obtain s' where c1: "tucalloc 2 8 dirty_free = Some (Return 0x2010 s')"
    and z: "\<forall>i < unat (2 * 8 :: 64 word). mem s' (0x2010 + of_nat i) = 0"
    by auto
  have after: "payload 0x2010 16 s' = replicate 16 0"
    by (rule nth_equalityI) (use z in \<open>simp_all add: payload_def nth_load_bytes\<close>)
  have e2: "map_option outcome_value (tumalloc (5 * 8) dirty_free) = Some (Some 0)"
    by (simp add: run_defs two_free_def dirty_free_def)
  then obtain s2 where t2: "tumalloc (5 * 8) dirty_free = Some (Return 0 s2)"
    by (auto elim: outcome_value.elims)
  from tucalloc_zero_fill [of 5 8 dirty_free] t2
  have c2: "tucalloc 5 8 dirty_free = Some (Return 0 s2)"
    by simp
  from before e1 c1 after e2 c2 show ?thesis by simp
qed

section \<open>First fit (C1)\<close>

text \<open>
  Whatever the free list holds, the loop of \<open>tumalloc\<close> ends in one of two ways only: the
  early \<^verbatim>\<open>return NULL\<close> after a failed split, or the heap-growth code after the loop. No path
  returns the payload of a block taken from the free list.
\<close>

lemma tumalloc_loop_result:
  assumes "tumalloc_loop sz s cur = Some r"
  shows "(\<exists>s'. r = Return 0 s') \<or> (\<exists>s'. r = tumalloc_grow sz s')"
proof -
  define P where "P = (\<lambda>(n::64 word) (st::state) (c::addr) (res::addr outcome).
     (\<exists>s'. res = Return 0 s') \<or> (\<exists>s'. res = tumalloc_grow n s'))"
  have "P sz s cur r"
  proof (rule tumalloc_loop.raw_induct [where P = P, OF _ assms])
    fix loop n st c res
    assume IH: "\<And>n st c res. loop n st c = Some res \<Longrightarrow> P n st c res"
    assume step: "(if c = 0 then Some (tumalloc_grow n st)
        else if n \<le> block_size st c
             then case split c (ucast (n + sizeof_free_block)) st of
                  (split_ptr, s1) \<Rightarrow>
                    if split_ptr = 0 then Some (Return 0 s1)
                    else remove_free_block c s1 \<bind>
                         (\<lambda>s2. let s3 = stamp_header split_ptr n s2
                               in loop n s3 (block_next s3 c))
             else loop n st (block_next st c)) = Some res"
    then show "P n st c res"
      by (auto simp add: P_def Let_def bind_eq_Some_conv split: if_splits prod.splits
          dest: IH [unfolded P_def])
  qed
  then show ?thesis by (simp add: P_def)
qed

lemma tumalloc_result:
  assumes "tumalloc sz s = Some r"
  shows "(\<exists>s'. r = Return 0 s') \<or> (\<exists>s'. r = tumalloc_grow sz s') \<or>
    r = Return (fst (do_alloc (sz + sizeof_free_block) s)) (snd (do_alloc (sz + sizeof_free_block) s))"
proof (cases "HEAD s = 0")
  case True
  with assms show ?thesis
    by (auto simp add: tumalloc_def split: prod.splits)
next
  case False
  with assms have "tumalloc_loop sz s (HEAD s) = Some r"
    by (simp add: tumalloc_def)
  from tumalloc_loop_result [OF this] show ?thesis by blast
qed

text \<open>
  C1 on \<open>two_free\<close>, whose first block fits a request of 16 bytes. The first block is split
  (residual header at \<open>0x1030\<close>), unlinked and stamped, but the scan goes on: the second block
  is split (residual at \<open>0x1130\<close>), unlinked and stamped as well, the free list ends up empty,
  the break moves from \<open>0x2000\<close> to \<open>0x2030\<close>, and the pointer returned is \<open>0x2010\<close> in
  the newly grown heap instead of the payload \<open>0x1010\<close> of the first fitting block.
\<close>

theorem tumalloc_falls_through:
  "map_option outcome_value (tumalloc 16 two_free) = Some (Some 0x2010) \<and>
   map_option (look [0x1000, 0x1030, 0x1100, 0x1130] \<circ> outcome_state) (tumalloc 16 two_free) =
     Some (0, 0x2030, [(MAGIC, 0x1234567, 0x1100), (16, 16, 0x1100), (MAGIC, 0x1234567, 0), (16, 16, 0)]) \<and>
   look [] two_free = (0x1000, 0x2000, [])"
  by (simp add: run_defs two_free_def)

section \<open>Round trip (C2)\<close>

text \<open>
  C2 on a fresh process: a block of 64 bytes is allocated and released at once. The pointer
  came from the empty-list path, which writes no header, so the release finds no magic number
  and aborts; the following allocation is never reached. Where the release does succeed
  (a request of \<open>0x01234567\<close> bytes with a free list too small to serve it, so that the size
  stored in the new header reads as the magic number), the block freed is at \<open>0x2000\<close>, and the
  next request of 16 bytes is answered with \<open>0x12365A0\<close> from newly grown heap: the break
  moves from \<open>0x1236587\<close> to \<open>0x12365B7\<close> and the freed block is dropped from the list.
\<close>

theorem round_trip_fails:
  "map_option aborted (release_allocate 64 blank) = Some True \<and>
   map_option aborted (round_trip 64 32 blank) = Some True \<and>
   map_option outcome_value (tumalloc 0x1234567 small_free) = Some (Some 0x2010) \<and>
   map_option (look [] \<circ> outcome_state) (release_allocate 0x1234567 small_free) =
     Some (0x2000, 0x1236587, []) \<and>
   map_option outcome_value (round_trip 0x1234567 16 small_free) = Some (Some 0x12365A0) \<and>
   map_option (look [] \<circ> outcome_state) (round_trip 0x1234567 16 small_free) =
     Some (0x1000, 0x12365B7, [])"
  by (simp add: run_defs small_free_def release_allocate_def round_trip_def)

section \<open>Double release (C3)\<close>

text \<open>
  C3 on the one pointer whose first release succeeds. After that release the header at
  \<open>0x2000\<close> still carries the magic number. The second release therefore passes the check and
  pushes the block again, which makes its next link point to itself, and the search for a
  previous neighbour never returns: the call neither aborts nor comes back.
\<close>

theorem double_release_not_detected:
  "map_option outcome_value (release_allocate 0x1234567 small_free) = Some (Some ()) \<and>
   map_option (look [0x2000] \<circ> outcome_state) (release_allocate 0x1234567 small_free) =
     Some (0x2000, 0x1236587, [(MAGIC, 0x1234567, 0x1000)]) \<and>
   double_release 0x1234567 small_free = None"
  by (simp add: run_cyclic_defs small_free_def release_allocate_def double_release_def)

section \<open>Coalescing (C5)\<close>

text \<open>
  C5 on \<open>held_magic\<close>, two adjacent blocks A at \<open>0x1000\<close> and B at \<open>0x1235577\<close>. Releasing A
  and then B leaves two entries on the free list: the head is B, whose next link is A, and A
  has grown over B (size \<open>0x2468ADE\<close>, both sizes plus one header). Releasing B and then A
  leaves the single entry A of that size.
\<close>

theorem coalesce_keeps_absorbed_block:
  "map_option (look [0x1235577, 0x1000] \<circ> outcome_state) (release_both 0x1010 0x1235587 held_magic) =
     Some (0x1235577, 0x3000000, [(MAGIC, 0x1234567, 0x1000), (0x2468ADE, 0x2468ADE, 0)]) \<and>
   map_option (look [0x1000] \<circ> outcome_state) (release_both 0x1235587 0x1010 held_magic) =
     Some (0x1000, 0x3000000, [(0x2468ADE, 0x2468ADE, 0)])"
  by (simp add: run_defs held_magic_def release_both_def)

section \<open>Heap growth (C8)\<close>

text \<open>
  A refused \<open>sbrk\<close> gives a null result: the rounding turns \<^verbatim>\<open>(void *) -1\<close> into 0 before the
  comparison with it. The address returned is a multiple of 16. Rounding up moves an address
  by at most 15.
\<close>

lemma do_alloc_refused:
  assumes "sbrk (sz + sizeof_free_block) s = (- 1, s)"
  shows "do_alloc sz s = (0, s)"
  using assms by (simp add: do_alloc_def ALIGNMENT_def)

lemma do_alloc_aligned: "fst (do_alloc sz s) AND 15 = 0"
proof -
  have up: "(q AND - 16) AND 15 = 0" for q :: "64 word"
    by (simp add: and.assoc)
  have same: "p AND 15 = 0" if "p mod 16 = 0" for p :: "64 word"
    using that word_mod_2p_is_mask [of 4 p] by (simp add: mask_eq_exp_minus_1)
  show ?thesis
    by (auto simp add: do_alloc_def ALIGNMENT_def Let_def up same split: prod.splits)
qed

lemma round_up_bounds:
  fixes p :: "64 word"
  assumes "unat p + 15 < 2 ^ 64"
  shows "unat p \<le> unat ((p + 16 - 1) AND NOT (16 - 1))"
    and "unat ((p + 16 - 1) AND NOT (16 - 1)) \<le> unat p + 15"
proof -
  define x where "x = p + 15"
  have ux: "unat x = unat p + 15"
    using assms by (simp add: x_def unat_plus_if_size word_size)
  have "(x AND NOT 15) AND (x AND 15) = 0"
    by (rule bit_word_eqI) (simp add: bit_simps)
  then have "(x AND NOT 15) + (x AND 15) = (x AND NOT 15) OR (x AND 15)"
    by (rule disjunctive_add_eq_or)
  also have "\<dots> = x"
    by (rule bit_word_eqI) (auto simp add: bit_simps)
  finally have parts: "x AND NOT 15 = x - (x AND 15)"
    by (simp add: algebra_simps)
  have le: "x AND 15 \<le> x" by (rule word_and_le2)
  have "x AND 15 \<le> 15" by (rule word_and_le1)
  then have r: "unat (x AND 15) \<le> 15" by (simp add: word_le_nat_alt)
  have "unat (x AND NOT 15) = unat x - unat (x AND 15)"
    unfolding parts using le by (rule unat_sub)
  with ux r le have "unat p \<le> unat (x AND NOT 15)" and "unat (x AND NOT 15) \<le> unat p + 15"
    by (simp_all add: word_le_nat_alt)
  moreover have "(p + 16 - 1) AND NOT (16 - 1) = x AND NOT 15"
    by (simp add: x_def add.commute)
  ultimately show "unat p \<le> unat ((p + 16 - 1) AND NOT (16 - 1))"
    and "unat ((p + 16 - 1) AND NOT (16 - 1)) \<le> unat p + 15"
    by simp_all
qed

lemma increment_positive:
  fixes sz :: "64 word"
  assumes "sz < 0x7FFFFFFFFFFFFFF0"
  shows "uint (sz + sizeof_free_block) = uint sz + 16"
    and "sint (sz + sizeof_free_block) = uint sz + 16"
proof -
  have u: "uint sz < 9223372036854775792"
    using assms by (simp add: word_less_def)
  then show b: "uint (sz + sizeof_free_block) = uint sz + 16"
    by (simp add: sizeof_free_block_def uint_plus_if_size word_size)
  with u have c: "uint (sz + sizeof_free_block) < 2 ^ 63"
    by simp
  have "sint (sz + sizeof_free_block) = signed_take_bit 63 (uint (sz + sizeof_free_block))"
    by (simp add: sint_uint)
  also have "\<dots> = uint (sz + sizeof_free_block)"
  proof (rule signed_take_bit_int_eq_self)
    have "- (2 ^ 63) \<le> (0::int)" by simp
    also have "0 \<le> uint (sz + sizeof_free_block)" by (rule uint_nonnegative)
    finally show "- (2 ^ 63) \<le> uint (sz + sizeof_free_block)" .
    show "uint (sz + sizeof_free_block) < 2 ^ 63" by (rule c)
  qed
  finally show "sint (sz + sizeof_free_block) = uint sz + 16"
    by (simp only: b)
qed

text \<open>
  C8, as the code has it, for a requested size below \<open>2^63 - 16\<close> (so that the increment passed
  to \<open>sbrk\<close> is positive). When the operating system refuses the growth, \<open>do_alloc\<close> returns
  null and changes nothing. Otherwise the break moves up by the size plus the header size and
  the address returned is the old break rounded up to a multiple of 16: it is aligned, it lies
  at most 15 bytes above the old break, so more than \<open>size\<close> bytes (at least size plus header
  size minus 15) lie between it and the new break, and it is the old break itself when that
  was aligned.
\<close>

theorem do_alloc_contract:
  assumes small: "sz < 0x7FFFFFFFFFFFFFF0"
  shows "(uint (brk_max s) < uint (brk s) + uint sz + 16 \<longrightarrow> do_alloc sz s = (0, s)) \<and>
    (uint (brk s) + uint sz + 16 \<le> uint (brk_max s) \<longrightarrow>
       fst (do_alloc sz s) AND 15 = 0 \<and>
       uint (brk (snd (do_alloc sz s))) = uint (brk s) + uint sz + 16 \<and>
       uint (brk s) \<le> uint (fst (do_alloc sz s)) \<and>
       uint (fst (do_alloc sz s)) \<le> uint (brk s) + 15 \<and>
       uint sz + 1 \<le> uint (brk (snd (do_alloc sz s))) - uint (fst (do_alloc sz s)) \<and>
       (brk s AND 15 = 0 \<longrightarrow> fst (do_alloc sz s) = brk s))"
proof (intro conjI impI)
  note inc = increment_positive [OF small]
  assume "uint (brk_max s) < uint (brk s) + uint sz + 16"
  then have "sbrk (sz + sizeof_free_block) s = (- 1, s)"
    by (simp add: sbrk_def inc Let_def)
  then show "do_alloc sz s = (0, s)" by (rule do_alloc_refused)
next
  note inc = increment_positive [OF small]
  assume granted: "uint (brk s) + uint sz + 16 \<le> uint (brk_max s)"
  define new where "new = uint (brk s) + uint sz + 16"
  define s1 where "s1 = s\<lparr>brk := word_of_int new\<rparr>"
  have nonneg: "0 \<le> new"
    unfolding new_def using uint_nonnegative [of "brk s"] uint_nonnegative [of sz] by linarith
  have top: "uint (brk_max s) < 2 ^ 64" using uint_lt2p [of "brk_max s"] by simp
  have os: "sbrk (sz + sizeof_free_block) s = (brk s, s1)"
  proof -
    have n: "uint (brk s) + sint (sz + sizeof_free_block) = new"
      by (simp add: new_def inc)
    have "\<not> (new < 0 \<or> uint (brk_max s) < new)"
      using granted nonneg unfolding new_def by linarith
    then show ?thesis
      unfolding sbrk_def Let_def n s1_def by simp
  qed
  have room': "unat (brk s) + 16 < 2 ^ 64"
  proof -
    have "uint (brk s) + 16 < 2 ^ 64"
      using granted top uint_nonnegative [of sz] by linarith
    then have "int (unat (brk s) + 16) < int (2 ^ 64)" by simp
    then show ?thesis by (simp only: of_nat_less_iff)
  qed
  then have room: "unat (brk s) + 15 < 2 ^ 64" by simp
  define q where "q = (brk s + 16 - 1) AND NOT (16 - 1)"
  have lo: "unat (brk s) \<le> unat q" and hi: "unat q \<le> unat (brk s) + 15"
    unfolding q_def by (rule round_up_bounds [OF room])+
  have "unat q < 2 ^ 64 - 1" using hi room' by simp
  then have "q \<noteq> - 1"
    by (auto simp add: unsigned_minus_1_eq_mask mask_eq_exp_minus_1)
  moreover have "brk s \<noteq> - 1"
    using room' by (auto simp add: unsigned_minus_1_eq_mask mask_eq_exp_minus_1)
  ultimately have q: "do_alloc sz s = (if brk s mod 16 \<noteq> 0 then q else brk s, s1)"
    by (auto simp add: do_alloc_def os ALIGNMENT_def q_def Let_def)
  show "fst (do_alloc sz s) AND 15 = 0" by (rule do_alloc_aligned)
  have moved: "uint (brk (snd (do_alloc sz s))) = uint (brk s) + uint sz + 16"
  proof -
    have "new < 2 ^ 64" using granted top by (simp add: new_def)
    with nonneg have "take_bit 64 new = new" by (simp add: take_bit_int_eq_self)
    then have a: "uint (word_of_int new :: 64 word) = new"
      by (simp add: uint_word_of_int_eq)
    have b: "brk (snd (do_alloc sz s)) = word_of_int new"
      by (simp add: q s1_def)
    have "uint (brk (snd (do_alloc sz s))) = new"
      unfolding b by (rule a)
    then show ?thesis unfolding new_def .
  qed
  then show "uint (brk (snd (do_alloc sz s))) = uint (brk s) + uint sz + 16" .
  have lo': "uint (brk s) \<le> uint q"
    using lo by (simp add: word_le_nat_alt [symmetric] word_le_def)
  have "int (unat q) \<le> int (unat (brk s) + 15)"
    using hi by (simp only: of_nat_le_iff)
  then have hi': "uint q \<le> uint (brk s) + 15" by simp
  from lo' hi' show "uint (brk s) \<le> uint (fst (do_alloc sz s))"
    and up: "uint (fst (do_alloc sz s)) \<le> uint (brk s) + 15"
    by (simp_all add: q)
  from moved up
  show "uint sz + 1 \<le> uint (brk (snd (do_alloc sz s))) - uint (fst (do_alloc sz s))"
    by linarith
  show "fst (do_alloc sz s) = brk s" if "brk s AND 15 = 0"
  proof -
    have "brk s mod 16 = brk s AND mask 4"
      using word_mod_2p_is_mask [of 4 "brk s"] by simp
    with that have "brk s mod 16 = 0" by (simp add: mask_eq_exp_minus_1)
    then show ?thesis by (simp add: q)
  qed
qed

theorem do_alloc_contract_witness:
  "(32 :: 64 word) < 0x7FFFFFFFFFFFFFF0 \<and>
   uint (brk_max exhausted) < uint (brk exhausted) + uint (32 :: 64 word) + 16 \<and>
   do_alloc 32 exhausted = (0, exhausted) \<and>
   uint (brk odd_break) + uint (32 :: 64 word) + 16 \<le> uint (brk_max odd_break) \<and>
   fst (do_alloc 32 odd_break) = 0x2030 \<and>
   uint (brk (snd (do_alloc 32 odd_break))) = uint (brk odd_break) + uint (32 :: 64 word) + 16 \<and>
   uint (32 :: 64 word) + 1 \<le>
     uint (brk (snd (do_alloc 32 odd_break))) - uint (fst (do_alloc 32 odd_break)) \<and>
   brk blank AND 15 = 0 \<and>
   uint (brk blank) + uint (32 :: 64 word) + 16 \<le> uint (brk_max blank) \<and>
   fst (do_alloc 32 blank) = brk blank"
proof -
  have small: "(32 :: 64 word) < 0x7FFFFFFFFFFFFFF0" by simp
  have refused: "uint (brk_max exhausted) < uint (brk exhausted) + uint (32 :: 64 word) + 16"
    by (simp add: exhausted_def blank_def)
  have granted: "uint (brk odd_break) + uint (32 :: 64 word) + 16 \<le> uint (brk_max odd_break)"
    by (simp add: odd_break_def blank_def)
  have granted': "uint (brk blank) + uint (32 :: 64 word) + 16 \<le> uint (brk_max blank)"
    and aligned: "brk blank AND 15 = 0"
    by (simp_all add: blank_def)
  have seen: "fst (do_alloc 32 odd_break) = 0x2030"
    by (simp add: run_defs odd_break_def)
  from do_alloc_contract [OF small, of exhausted] do_alloc_contract [OF small, of odd_break]
    do_alloc_contract [OF small, of blank] small refused granted granted' aligned seen
  show ?thesis by blast
qed

text \<open>
  C8 fails as stated after one earlier request of 24 bytes, which leaves the break at
  \<open>0x2028\<close>. A request of 32 bytes moves the break by 48 to \<open>0x2058\<close>, and the address
  returned is the old break rounded up, \<open>0x2030\<close>: only 40 bytes lie between it and the
  break, fewer than the 48 of size plus header size. And for a size of \<open>2^64 - 32\<close> the
  increment passed to \<open>sbrk\<close> is -16: the call succeeds and the break moves down.
\<close>

theorem do_alloc_short_region:
  "fst (do_alloc 24 blank) = 0x2000 \<and>
   brk (snd (do_alloc 24 blank)) = 0x2028 \<and>
   fst (do_alloc 32 (snd (do_alloc 24 blank))) = 0x2030 \<and>
   brk (snd (do_alloc 32 (snd (do_alloc 24 blank)))) = 0x2058 \<and>
   unat (brk (snd (do_alloc 32 (snd (do_alloc 24 blank)))) - fst (do_alloc 32 (snd (do_alloc 24 blank)))) = 40 \<and>
   unat (32 + sizeof_free_block) = 48 \<and>
   fst (do_alloc 0xFFFFFFFFFFFFFFE0 blank) = 0x2000 \<and>
   brk (snd (do_alloc 0xFFFFFFFFFFFFFFE0 blank)) = 0x1FF0"
  by (simp add: run_defs)

end
